theory Spec2Isabelle
  imports Complex_Main "HOL-Library.AList" "HOL-Library.Log_Nat"
begin

section \<open>Accounts\<close>

text \<open>
  An account is the string form of an address (\<^verbatim>\<open>`0x${string}`\<close> in the source).
  Everywhere the source compares two accounts it lower-cases both sides first with
  \<^verbatim>\<open>String.prototype.toLowerCase\<close>; on the hexadecimal strings that the ledger returns only the
  letters A to F are affected, so the model maps the ASCII capitals to their small letters and
  leaves every other character as it is.
\<close>

type_synonym address = string

definition toLowerCase_char :: "char \<Rightarrow> char" where
  "toLowerCase_char c =
     (let n = (of_char c :: nat) in if 65 \<le> n \<and> n \<le> 90 then char_of (n + 32) else c)"

definition toLowerCase :: "string \<Rightarrow> string" where
  "toLowerCase s = map toLowerCase_char s"

section \<open>Promises: rejection as a value\<close>

text \<open>
  An \<^verbatim>\<open>async\<close> function either resolves with a value or rejects with an error; the model
  returns \<open>Inr\<close> of the value or \<open>Inl\<close> of the error. \<open>await\<close> is the continuation of a
  resolved promise (a rejection propagates), \<open>try_catch\<close> is a \<^verbatim>\<open>try { ... } catch (error) { ... }\<close>
  block.
\<close>

datatype error =
    ReadContractError
  | WalletClientNotFound
  | ProviderNotFound
  | AccountNotFound
  | SendTransactionError

definition await :: "error + 'a \<Rightarrow> ('a \<Rightarrow> error + 'b) \<Rightarrow> error + 'b" where
  "await p k = (case p of Inl e \<Rightarrow> Inl e | Inr v \<Rightarrow> k v)"

definition try_catch :: "error + 'a \<Rightarrow> (error \<Rightarrow> error + 'a) \<Rightarrow> error + 'a" where
  "try_catch body handler = (case body of Inl e \<Rightarrow> handler e | Inr v \<Rightarrow> Inr v)"

section \<open>The ledger as seen through \<^verbatim>\<open>publicClient.readContract\<close>\<close>

text \<open>
  The LSP26 contract is an external service. The client reads it through five view functions,
  each of which may fail (network or RPC failure, revert). One value of type \<open>ledger\<close> is the
  behaviour of these reads during one operation: what each call answers, or that it throws.
\<close>

record ledger =
  followerCount_call :: "address \<Rightarrow> error + nat"
  followingCount_call :: "address \<Rightarrow> error + nat"
  getFollowersByIndex_call :: "address \<Rightarrow> nat \<Rightarrow> nat \<Rightarrow> error + address list"
  getFollowsByIndex_call :: "address \<Rightarrow> nat \<Rightarrow> nat \<Rightarrow> error + address list"
  isFollowing_call :: "address \<Rightarrow> address \<Rightarrow> error + bool"

text \<open>
  A ledger in a fixed state that answers every read: \<open>followersOf a\<close> and \<open>followsOf a\<close> are
  the follower and following lists of \<open>a\<close> in ledger order, an index read returns the entries
  from \<open>startIndex\<close> up to \<open>endIndex\<close> that exist, and the contract compares addresses as
  20-byte values, that is without regard to the case of their string form.
\<close>

definition slice :: "nat \<Rightarrow> nat \<Rightarrow> 'a list \<Rightarrow> 'a list" where
  "slice startIndex endIndex xs = take (endIndex - startIndex) (drop startIndex xs)"

definition ledger_of ::
  "(address \<Rightarrow> address list) \<Rightarrow> (address \<Rightarrow> address list) \<Rightarrow> ledger" where
  "ledger_of followersOf followsOf =
     \<lparr> followerCount_call = (\<lambda>a. Inr (length (followersOf a))),
       followingCount_call = (\<lambda>a. Inr (length (followsOf a))),
       getFollowersByIndex_call = (\<lambda>a s e. Inr (slice s e (followersOf a))),
       getFollowsByIndex_call = (\<lambda>a s e. Inr (slice s e (followsOf a))),
       isFollowing_call =
         (\<lambda>follower addr. Inr (toLowerCase addr \<in> set (map toLowerCase (followsOf follower)))) \<rparr>"

section \<open>\<^verbatim>\<open>LSP26FollowerSystem\<close>: the read methods\<close>

definition PAGE_SIZE :: nat where
  "PAGE_SIZE = 50"

definition getFollowerCount :: "ledger \<Rightarrow> address \<Rightarrow> error + nat" where
  "getFollowerCount L a =
     try_catch (await (followerCount_call L a) (\<lambda>data. Inr data)) (\<lambda>error. Inr 0)"

definition getFollowingCount :: "ledger \<Rightarrow> address \<Rightarrow> error + nat" where
  "getFollowingCount L a =
     try_catch (await (followingCount_call L a) (\<lambda>data. Inr data)) (\<lambda>error. Inr 0)"

definition getFollowers :: "ledger \<Rightarrow> address \<Rightarrow> nat \<Rightarrow> error + address list" where
  "getFollowers L a startIndex =
     try_catch
       (await (getFollowerCount L a) (\<lambda>followerCount.
          if followerCount = 0 then Inr []
          else (let endIndex = min (startIndex + PAGE_SIZE) followerCount
                in await (getFollowersByIndex_call L a startIndex endIndex) (\<lambda>data. Inr data))))
       (\<lambda>error. Inr [])"

definition getFollowing :: "ledger \<Rightarrow> address \<Rightarrow> nat \<Rightarrow> error + address list" where
  "getFollowing L a startIndex =
     try_catch
       (await (getFollowingCount L a) (\<lambda>followingCount.
          if followingCount = 0 then Inr []
          else (let endIndex = min (startIndex + PAGE_SIZE) followingCount
                in await (getFollowsByIndex_call L a startIndex endIndex) (\<lambda>data. Inr data))))
       (\<lambda>error. Inr [])"

definition getAllFollowers :: "ledger \<Rightarrow> address \<Rightarrow> error + address list" where
  "getAllFollowers L a =
     try_catch
       (await (getFollowerCount L a) (\<lambda>followerCount.
          if followerCount = 0 then Inr []
          else await (getFollowersByIndex_call L a 0 followerCount) (\<lambda>data. Inr data)))
       (\<lambda>error. Inr [])"

definition getAllFollowing :: "ledger \<Rightarrow> address \<Rightarrow> error + address list" where
  "getAllFollowing L a =
     try_catch
       (await (getFollowingCount L a) (\<lambda>followingCount.
          if followingCount = 0 then Inr []
          else await (getFollowsByIndex_call L a 0 followingCount) (\<lambda>data. Inr data)))
       (\<lambda>error. Inr [])"

definition isFollowing :: "ledger \<Rightarrow> address \<Rightarrow> address \<Rightarrow> error + bool" where
  "isFollowing L followerAddress targetAddress =
     try_catch (await (isFollowing_call L followerAddress targetAddress) (\<lambda>data. Inr data))
       (\<lambda>error. Inr False)"

text \<open>
  \<^verbatim>\<open>Array.from(new Set(xs))\<close>: a JavaScript \<^verbatim>\<open>Set\<close> keeps its elements in the order of
  their first insertion.
\<close>

primrec Array_from_Set :: "'a list \<Rightarrow> 'a list" where
  "Array_from_Set [] = []"
| "Array_from_Set (x # xs) = x # filter (\<lambda>y. y \<noteq> x) (Array_from_Set xs)"

record mutual_result =
  allFollowers :: "address list"
  allFollowing :: "address list"
  mutualConnections :: "address list"
  mutualCount :: nat

definition empty_result :: mutual_result where
  "empty_result =
     \<lparr> allFollowers = [], allFollowing = [], mutualConnections = [], mutualCount = 0 \<rparr>"

definition getMutualConnections :: "ledger \<Rightarrow> address \<Rightarrow> error + mutual_result" where
  "getMutualConnections L a =
     try_catch
       (await (getFollowerCount L a) (\<lambda>followerCount.
        await (getFollowingCount L a) (\<lambda>followingCount.
          if followerCount = 0 \<or> followingCount = 0 then Inr empty_result
          else
            await (getAllFollowers L a) (\<lambda>followers.
            await (getAllFollowing L a) (\<lambda>following.
              (let followerSet = set (map toLowerCase followers);
                   found = filter (\<lambda>lowerAddr. lowerAddr \<in> followerSet)
                             (map toLowerCase following);
                   uniqueMutualSet = Array_from_Set found
               in Inr \<lparr> allFollowers = followers, allFollowing = following,
                        mutualConnections = uniqueMutualSet,
                        mutualCount = length uniqueMutualSet \<rparr>))))))
       (\<lambda>error. Inr empty_result)"

section \<open>\<^verbatim>\<open>Dashboard.fetchStats\<close>\<close>

text \<open>
  The statistics that the dashboard derives from one aggregation. The function returns early
  when no account is connected, and its \<^verbatim>\<open>catch\<close> block only shows a toast; in both cases no
  statistics are set, which is the value \<open>None\<close>.
\<close>

record stats =
  followerCount :: int
  followingCount :: int
  stats_mutualCount :: int
  nonMutualCount :: int
  nonFollowingBack :: int
  suggestedProfiles :: int


section \<open>JavaScript numbers in the score\<close>

text \<open>
  The score is computed in IEEE 754 double precision. A finite double is a rational number;
  \<open>to_double\<close> rounds a rational to the nearest double (53 significant bits, ties to the even
  significand). Exponent range and subnormal numbers are left out: every value that occurs in
  the score lies far inside the normal range. \<open>double_mul\<close> and \<open>double_div\<close> are \<^verbatim>\<open>*\<close> and
  \<^verbatim>\<open>/\<close> on doubles, \<open>Math_round\<close> is \<^verbatim>\<open>Math.round\<close> (to the nearest integer, a tie towards
  plus infinity).
\<close>

definition ilog2 :: "rat \<Rightarrow> int" where
  "ilog2 a =
     (case quotient_of a of
        (p, d) \<Rightarrow> (let k = bitlen p - bitlen d in if 2 powi k \<le> a then k else k - 1))"

definition to_double :: "rat \<Rightarrow> rat" where
  "to_double q =
     (if q = 0 then 0
      else (let a = \<bar>q\<bar>;
                ulp = 2 powi (ilog2 a - 52);
                m = a / ulp;
                f = \<lfloor>m\<rfloor>;
                r = (if m - of_int f < 1 / 2 then f
                     else if 1 / 2 < m - of_int f then f + 1
                     else if even f then f else f + 1)
            in sgn q * of_int r * ulp))"

definition double_mul :: "rat \<Rightarrow> rat \<Rightarrow> rat" where
  "double_mul x y = to_double (x * y)"

definition double_div :: "rat \<Rightarrow> rat \<Rightarrow> rat" where
  "double_div x y = to_double (x / y)"

definition Math_round :: "rat \<Rightarrow> int" where
  "Math_round x = \<lfloor>x + 1 / 2\<rfloor>"

section \<open>\<^verbatim>\<open>ProfileRecommendations.generateRecommendations\<close>\<close>

subsection \<open>Reading the follower and following lists page by page\<close>

text \<open>
  The three \<^verbatim>\<open>while (hasMore...)\<close> loops of the function have the same shape: fetch the page
  that starts at \<^verbatim>\<open>page * batchSize\<close>, append it, and go on while the page holds exactly
  \<^verbatim>\<open>batchSize\<close> entries. \<open>getPage\<close> is \<^verbatim>\<open>followerSystem.getFollowers(accounts[0], _)\<close> or
  \<^verbatim>\<open>followerSystem.getFollowing(accounts[0], _)\<close>. Nothing bounds the number of rounds, so a run
  that never leaves the loop is the value \<open>None\<close>.
\<close>

definition batchSize :: nat where
  "batchSize = 100"

partial_function (option) fetchPages ::
  "(nat \<Rightarrow> error + address list) \<Rightarrow> nat \<Rightarrow> address list \<Rightarrow> (error + address list) option"
where
  "fetchPages getPage page acc =
     (case getPage (page * batchSize) of
        Inl e \<Rightarrow> Some (Inl e)
      | Inr batch \<Rightarrow>
          (if length batch = batchSize then fetchPages getPage (page + 1) (acc @ batch)
           else Some (Inr (acc @ batch))))"

declare fetchPages.simps [code]

definition fetchAllFollowers :: "ledger \<Rightarrow> address \<Rightarrow> (error + address list) option" where
  "fetchAllFollowers L account = fetchPages (getFollowers L account) 0 []"

definition fetchAllFollowing :: "ledger \<Rightarrow> address \<Rightarrow> (error + address list) option" where
  "fetchAllFollowing L account = fetchPages (getFollowing L account) 0 []"

subsection \<open>Seed and candidates\<close>

definition mutualFollowers :: "address list \<Rightarrow> address set \<Rightarrow> address list" where
  "mutualFollowers followers followingSet =
     filter (\<lambda>address. toLowerCase address \<in> followingSet) followers"

definition extendedNetwork :: "address list \<Rightarrow> address list \<Rightarrow> address list" where
  "extendedNetwork followers following =
     take 20 (mutualFollowers followers (set (map toLowerCase following)))
     @ take 20 followers
     @ take 20 following"

text \<open>
  \<^verbatim>\<open>candidateProfiles\<close> is a JavaScript \<^verbatim>\<open>Map\<close> from the candidate's address, as the ledger
  spelled it, to \<^verbatim>\<open>{ mutualCount, sources }\<close>. A \<^verbatim>\<open>Map\<close> iterates in the order in which its
  keys were first set, and setting an existing key keeps its place: an association list under
  \<open>AList.update\<close>.
\<close>

record candidate_data =
  cand_mutualCount :: nat
  sources :: "address list"

type_synonym candidates = "(address \<times> candidate_data) list"

definition addCandidate ::
  "address \<Rightarrow> address set \<Rightarrow> address \<Rightarrow> candidates \<Rightarrow> address \<Rightarrow> candidates" where
  "addCandidate account followingSet networkAddress candidateProfiles potentialAddress =
     (if toLowerCase potentialAddress = toLowerCase account
         \<or> toLowerCase potentialAddress \<in> followingSet
      then candidateProfiles
      else (let existingData =
                  (case map_of candidateProfiles potentialAddress of
                     Some d \<Rightarrow> d
                   | None \<Rightarrow> \<lparr> cand_mutualCount = 0, sources = [] \<rparr>);
                counted = existingData \<lparr> cand_mutualCount := cand_mutualCount existingData + 1 \<rparr>;
                noted = (if networkAddress \<in> set (sources counted) then counted
                         else counted \<lparr> sources := sources counted @ [networkAddress] \<rparr>)
            in AList.update potentialAddress noted candidateProfiles))"

text \<open>
  The body of the loop over the seed. Its \<^verbatim>\<open>try\<close> block covers both reads; what the first
  inner loop has already put into the map stays there when the second read throws.
\<close>

definition expandSeed ::
  "ledger \<Rightarrow> address \<Rightarrow> address set \<Rightarrow> candidates \<Rightarrow> address \<Rightarrow> candidates" where
  "expandSeed L account followingSet candidateProfiles networkAddress =
     (case getFollowing L networkAddress 0 of
        Inl error \<Rightarrow> candidateProfiles
      | Inr networkFollowing \<Rightarrow>
          (let afterFollowing =
                 foldl (addCandidate account followingSet networkAddress)
                   candidateProfiles networkFollowing
           in (case getFollowers L networkAddress 0 of
                 Inl error \<Rightarrow> afterFollowing
               | Inr networkFollowers \<Rightarrow>
                   foldl (addCandidate account followingSet networkAddress)
                     afterFollowing networkFollowers)))"

definition candidateProfiles ::
  "ledger \<Rightarrow> address \<Rightarrow> address set \<Rightarrow> address list \<Rightarrow> candidates" where
  "candidateProfiles L account followingSet network =
     foldl (expandSeed L account followingSet) [] network"

text \<open>
  \<^verbatim>\<open>Array.prototype.sort\<close> is stable, and so is \<open>sort_key\<close>; the comparator
  \<^verbatim>\<open>b[1].mutualCount - a[1].mutualCount\<close> orders by falling \<^verbatim>\<open>mutualCount\<close>.
\<close>

definition sortedCandidates :: "candidates \<Rightarrow> candidates" where
  "sortedCandidates entries =
     take 50 (sort_key (\<lambda>entry. - int (cand_mutualCount (snd entry))) entries)"

subsection \<open>Reason and score\<close>

datatype reason =
    HighlyPopular nat
  | Popular int
  | SeveralMutual nat
  | FollowedBy nat
  | GrowingProfile

definition mutualFollowerPercent :: "nat \<Rightarrow> nat \<Rightarrow> int" where
  "mutualFollowerPercent count networkSize =
     Math_round (double_mul (double_div (of_nat count) (of_nat networkSize)) 100)"

definition reasonFor :: "nat \<Rightarrow> nat \<Rightarrow> reason" where
  "reasonFor count networkSize =
     (let percent = mutualFollowerPercent count networkSize
      in if 70 < percent then HighlyPopular count
         else if 50 < percent then Popular percent
         else if 30 < percent then SeveralMutual count
         else if 0 < count then FollowedBy count
         else GrowingProfile)"

definition networkSizeWeight :: rat where
  "networkSizeWeight = to_double (7 / 10)"

definition recentActivityWeight :: rat where
  "recentActivityWeight = to_double (3 / 10)"

text \<open>
  \<^verbatim>\<open>sortedCandidates.indexOf([address, data])\<close>. \<^verbatim>\<open>Array.prototype.indexOf\<close> compares with
  \<^verbatim>\<open>===\<close>, which on arrays is identity of the object. Its argument here is an array literal,
  that is an array allocated by this very expression: it is identical to no element of the
  list, whatever the list holds, and the search answers \<open>-1\<close>.
\<close>

definition indexOf_literal :: "'a list \<Rightarrow> 'a \<Rightarrow> int" where
  "indexOf_literal xs literal = - 1"

text \<open>
  \<open>mutualLength\<close> is \<^verbatim>\<open>mutualFollowers.length\<close>, \<open>networkSize\<close> is
  \<^verbatim>\<open>extendedNetwork.length\<close>, and \<open>draw\<close> is the value of \<^verbatim>\<open>Math.floor(Math.random() * 36)\<close>
  for this candidate, one of 0 to 35. The division is never by zero: a candidate only comes
  from a member of the seed.
\<close>

definition weightedScore ::
  "nat \<Rightarrow> nat \<Rightarrow> nat \<Rightarrow> candidates \<Rightarrow> address \<times> candidate_data \<Rightarrow> int" where
  "weightedScore mutualLength networkSize draw ranked entry =
     (let base =
            (if 0 < mutualLength
             then Math_round
                    (double_mul
                       (double_mul
                          (double_div (of_nat (cand_mutualCount (snd entry))) (of_nat networkSize))
                          100)
                       networkSizeWeight)
             else int (draw mod 36) + 60);
          isRecentProfile = (indexOf_literal ranked entry < 20);
          withBonus =
            (if isRecentProfile then base + Math_round (double_mul 20 recentActivityWeight)
             else base)
      in min 98 (max 50 withBonus))"

subsection \<open>The final list\<close>

record RecommendedProfile =
  rec_address :: address
  score :: int
  rec_reason :: reason
  rec_mutualFollowers :: nat
  mutualFollowerSources :: "address list"

text \<open>
  One round of the loop over \<^verbatim>\<open>sortedCandidates\<close>: \<open>None\<close> when the candidate is skipped
  (\<^verbatim>\<open>continue\<close>, or the \<^verbatim>\<open>catch\<close> of the round), otherwise the profile that is pushed. The
  profile metadata of the candidate and of its sources is display data read from another
  service; it decides nothing here and is left out.
\<close>

definition processCandidate ::
  "ledger \<Rightarrow> address \<Rightarrow> (address \<Rightarrow> nat) \<Rightarrow> nat \<Rightarrow> nat \<Rightarrow> address set \<Rightarrow> candidates
     \<Rightarrow> address \<times> candidate_data \<Rightarrow> RecommendedProfile option" where
  "processCandidate L account rnd mutualLength networkSize currentFollowingSet ranked entry =
     (if toLowerCase (fst entry) \<in> currentFollowingSet then None
      else (case isFollowing L account (fst entry) of
              Inl error \<Rightarrow> None
            | Inr alreadyFollowing \<Rightarrow>
                (if alreadyFollowing then None
                 else Some \<lparr> rec_address = fst entry,
                             score = weightedScore mutualLength networkSize (rnd (fst entry))
                                       ranked entry,
                             rec_reason = reasonFor (cand_mutualCount (snd entry)) networkSize,
                             rec_mutualFollowers = cand_mutualCount (snd entry),
                             mutualFollowerSources = take 10 (sources (snd entry)) \<rparr>)))"

datatype outcome =
    NotConnected
  | RandomRecommendations
  | FailedThenRandom
  | NetworkRecommendations "RecommendedProfile list"

text \<open>
  \<open>L\<close> is the ledger while the lists are read and the seed is expanded, \<open>L'\<close> is the ledger
  at the later moment when the following list is read again and each candidate is checked with
  \<^verbatim>\<open>isFollowing\<close>; the requester may have followed somebody in between. Whenever the function
  hands over to \<^verbatim>\<open>generateRandomRecommendations\<close> the outcome only says so: the random
  recommendations come from the database and from \<^verbatim>\<open>Math.random\<close>.
\<close>

definition networkStage ::
  "ledger \<Rightarrow> ledger \<Rightarrow> (address \<Rightarrow> nat) \<Rightarrow> address \<Rightarrow> address list \<Rightarrow> address list
     \<Rightarrow> outcome option" where
  "networkStage L L' rnd account followers following =
     (if followers = [] \<and> following = [] then Some RandomRecommendations
      else
        (let followingSet = set (map toLowerCase following);
             mutual = mutualFollowers followers followingSet;
             network = extendedNetwork followers following;
             profiles = candidateProfiles L account followingSet network
         in if profiles = [] then Some RandomRecommendations
            else
              (let ranked = sortedCandidates profiles
               in Option.bind (fetchAllFollowing L' account) (\<lambda>refetched.
                    (let currentFollowing =
                           (case refetched of Inl error \<Rightarrow> following | Inr xs \<Rightarrow> xs);
                         currentFollowingSet = set (map toLowerCase currentFollowing);
                         recommendationsList =
                           List.map_filter
                             (processCandidate L' account rnd (length mutual) (length network)
                                currentFollowingSet ranked)
                             ranked
                     in if length recommendationsList < 5 then Some RandomRecommendations
                        else Some (NetworkRecommendations recommendationsList))))))"

definition generateRecommendations ::
  "bool \<Rightarrow> ledger \<Rightarrow> ledger \<Rightarrow> (address \<Rightarrow> nat) \<Rightarrow> address \<Rightarrow> outcome option" where
  "generateRecommendations isConnected L L' rnd account =
     (if \<not> isConnected \<or> account = [] then Some NotConnected
      else
        Option.bind (fetchAllFollowers L account) (\<lambda>fetchedFollowers.
          (case fetchedFollowers of
             Inl error \<Rightarrow> Some FailedThenRandom
           | Inr followers \<Rightarrow>
               Option.bind (fetchAllFollowing L account) (\<lambda>fetchedFollowing.
                 (case fetchedFollowing of
                    Inl error \<Rightarrow> Some FailedThenRandom
                  | Inr following \<Rightarrow> networkStage L L' rnd account followers following)))))"

section \<open>\<^verbatim>\<open>LSP26FollowerSystem\<close>: the write methods\<close>

text \<open>
  A mutation is a transaction handed to \<^verbatim>\<open>walletClient.sendTransaction\<close>. The wallet record is
  the state these methods run against: whether the wallet client and the provider exist, the
  accounts that \<^verbatim>\<open>eth_requestAccounts\<close> answers, for the \<open>n\<close>-th submitted transaction whether
  it is accepted, and the transactions submitted so far, in order.
\<close>

datatype tx =
    FollowTx address
  | UnfollowTx address
  | FollowBatchTx "address list"
  | UnfollowBatchTx "address list"

record wallet =
  walletClient :: bool
  provider :: bool
  accounts :: "address list"
  accepts :: "nat \<Rightarrow> tx \<Rightarrow> bool"
  sent :: "tx list"

definition sendTransaction :: "wallet \<Rightarrow> tx \<Rightarrow> (error + bool) \<times> wallet" where
  "sendTransaction w callData =
     (if accepts w (length (sent w)) callData then Inr True else Inl SendTransactionError,
      w \<lparr> sent := sent w @ [callData] \<rparr>)"

definition follow :: "wallet \<Rightarrow> address \<Rightarrow> (error + bool) \<times> wallet" where
  "follow w targetAddress =
     (if \<not> walletClient w then (Inl WalletClientNotFound, w)
      else if \<not> provider w then (Inl ProviderNotFound, w)
      else if accounts w = [] then (Inl AccountNotFound, w)
      else sendTransaction w (FollowTx targetAddress))"

definition unfollow :: "wallet \<Rightarrow> address \<Rightarrow> (error + bool) \<times> wallet" where
  "unfollow w targetAddress =
     (if \<not> walletClient w then (Inl WalletClientNotFound, w)
      else if \<not> provider w then (Inl ProviderNotFound, w)
      else if accounts w = [] then (Inl AccountNotFound, w)
      else sendTransaction w (UnfollowTx targetAddress))"

definition MAX_BATCH_SIZE :: nat where
  "MAX_BATCH_SIZE = 50"

definition followMany :: "wallet \<Rightarrow> address list \<Rightarrow> (error + bool) \<times> wallet" where
  "followMany w targetAddresses =
     (if \<not> walletClient w then (Inl WalletClientNotFound, w)
      else if \<not> provider w then (Inl ProviderNotFound, w)
      else if length targetAddresses = 0 then (Inr True, w)
      else (let limited = (if MAX_BATCH_SIZE < length targetAddresses
                           then take MAX_BATCH_SIZE targetAddresses else targetAddresses)
            in if accounts w = [] then (Inl AccountNotFound, w)
               else sendTransaction w (FollowBatchTx limited)))"

definition unfollowMany :: "wallet \<Rightarrow> address list \<Rightarrow> (error + bool) \<times> wallet" where
  "unfollowMany w targetAddresses =
     (if \<not> walletClient w then (Inl WalletClientNotFound, w)
      else if \<not> provider w then (Inl ProviderNotFound, w)
      else if length targetAddresses = 0 then (Inr True, w)
      else (let limited = (if MAX_BATCH_SIZE < length targetAddresses
                           then take MAX_BATCH_SIZE targetAddresses else targetAddresses)
            in if accounts w = [] then (Inl AccountNotFound, w)
               else sendTransaction w (UnfollowBatchTx limited)))"

section \<open>\<^verbatim>\<open>FollowerManagement\<close>: follow and unfollow the selected followers\<close>

text \<open>
  \<^verbatim>\<open>handleFollowSelected\<close> and \<^verbatim>\<open>handleUnfollowSelected\<close> are the same text up to four places:
  which followers count as selected (\<open>wanted\<close>), the single mutation (\<open>single\<close>), the batched
  mutation (\<open>many\<close>) and the flags set on success (\<open>mark\<close>). The model writes the text once,
  with the mode as a parameter. Saving the list to the database afterwards swallows its own
  errors and changes nothing below; it is left out.
\<close>

record FollowerData =
  fd_address :: address
  isMutual :: bool
  fd_isFollowing :: bool
  isSelected :: bool

record followResult =
  res_address :: address
  success :: bool

datatype mode = Follow | Unfollow

datatype report =
    NoAccount
  | NothingSelected
  | AllSucceeded nat
  | SomeOf nat nat

definition wanted :: "mode \<Rightarrow> FollowerData \<Rightarrow> bool" where
  "wanted m f =
     (case m of Follow \<Rightarrow> isSelected f \<and> \<not> fd_isFollowing f
              | Unfollow \<Rightarrow> isSelected f \<and> fd_isFollowing f)"

definition single :: "mode \<Rightarrow> wallet \<Rightarrow> address \<Rightarrow> (error + bool) \<times> wallet" where
  "single m = (case m of Follow \<Rightarrow> follow | Unfollow \<Rightarrow> unfollow)"

definition many :: "mode \<Rightarrow> wallet \<Rightarrow> address list \<Rightarrow> (error + bool) \<times> wallet" where
  "many m = (case m of Follow \<Rightarrow> followMany | Unfollow \<Rightarrow> unfollowMany)"

definition mark :: "mode \<Rightarrow> FollowerData \<Rightarrow> FollowerData" where
  "mark m f =
     (case m of Follow \<Rightarrow> f \<lparr> isMutual := True, fd_isFollowing := True \<rparr>
              | Unfollow \<Rightarrow> f \<lparr> isMutual := False, fd_isFollowing := False \<rparr>)"

definition resolved :: "error + 'a \<Rightarrow> bool" where
  "resolved p = (case p of Inl error \<Rightarrow> False | Inr v \<Rightarrow> True)"

text \<open>
  The fallback \<^verbatim>\<open>Promise.all(selectedFollowers.map(async (follower) => ...))\<close>: one attempt
  for each selected follower, started in list order, each with its own \<^verbatim>\<open>try\<close> and
  \<^verbatim>\<open>catch\<close>.
\<close>

fun attemptEach :: "mode \<Rightarrow> wallet \<Rightarrow> FollowerData list \<Rightarrow> followResult list \<times> wallet" where
  "attemptEach m w [] = ([], w)"
| "attemptEach m w (follower # rest) =
     (case single m w (fd_address follower) of
        (p, w1) \<Rightarrow>
          (case attemptEach m w1 rest of
             (results, w2) \<Rightarrow>
               (\<lparr> res_address = fd_address follower, success = resolved p \<rparr> # results, w2)))"

definition mutationResults ::
  "mode \<Rightarrow> wallet \<Rightarrow> FollowerData list \<Rightarrow> followResult list \<times> wallet" where
  "mutationResults m w selectedFollowers =
     (if length selectedFollowers = 1
      then (let follower = hd selectedFollowers
            in (case single m w (fd_address follower) of
                  (p, w1) \<Rightarrow> ([\<lparr> res_address = fd_address follower, success = resolved p \<rparr>], w1)))
      else
        (let addresses = map fd_address selectedFollowers
         in if MAX_BATCH_SIZE < length addresses
            then (case many m w (take MAX_BATCH_SIZE addresses) of
                    (p, w1) \<Rightarrow>
                      (if resolved p
                       then (map (\<lambda>(address, index).
                                    \<lparr> res_address = address, success = index < MAX_BATCH_SIZE \<rparr>)
                               (zip addresses [0 ..< length addresses]), w1)
                       else attemptEach m w1 selectedFollowers))
            else (case many m w addresses of
                    (p, w1) \<Rightarrow>
                      (if resolved p
                       then (map (\<lambda>address. \<lparr> res_address = address, success = True \<rparr>)
                               addresses, w1)
                       else attemptEach m w1 selectedFollowers))))"

definition updateFollower :: "mode \<Rightarrow> followResult list \<Rightarrow> FollowerData \<Rightarrow> FollowerData" where
  "updateFollower m results follower =
     (case find (\<lambda>r. res_address r = fd_address follower) results of
        Some result \<Rightarrow> (if success result then mark m follower else follower)
      | None \<Rightarrow> follower)"

definition handleSelected ::
  "mode \<Rightarrow> bool \<Rightarrow> address \<Rightarrow> wallet \<Rightarrow> FollowerData list
     \<Rightarrow> report \<times> FollowerData list \<times> wallet" where
  "handleSelected m isConnected account w followers =
     (if \<not> isConnected \<or> account = [] then (NoAccount, followers, w)
      else
        (let selectedFollowers = filter (wanted m) followers
         in if length selectedFollowers = 0 then (NothingSelected, followers, w)
            else
              (case mutationResults m w selectedFollowers of
                 (results, w1) \<Rightarrow>
                   (let successCount = length (filter success results);
                        updatedFollowers = map (updateFollower m results) followers
                    in (if successCount = length selectedFollowers
                        then AllSucceeded successCount
                        else SomeOf successCount (length selectedFollowers),
                        updatedFollowers, w1)))))"

definition handleFollowSelected ::
  "bool \<Rightarrow> address \<Rightarrow> wallet \<Rightarrow> FollowerData list \<Rightarrow> report \<times> FollowerData list \<times> wallet"
where
  "handleFollowSelected = handleSelected Follow"

definition handleUnfollowSelected ::
  "bool \<Rightarrow> address \<Rightarrow> wallet \<Rightarrow> FollowerData list \<Rightarrow> report \<times> FollowerData list \<times> wallet"
where
  "handleUnfollowSelected = handleSelected Unfollow"

section \<open>Scenario data\<close>

text \<open>
  Accounts and ledgers for the concrete scenarios. The letters of the first five accounts are
  capitals, as in a checksummed address, so that lower-casing is exercised. \<open>test_account n\<close> is a
  family of pairwise different accounts for \<open>n\<close> below 256.
\<close>

definition acct_A :: address where "acct_A = ''0xA0''"
definition acct_B :: address where "acct_B = ''0xB1''"
definition acct_C :: address where "acct_C = ''0xC2''"
definition acct_D :: address where "acct_D = ''0xD3''"
definition acct_E :: address where "acct_E = ''0xE4''"


definition unreachable_ledger :: ledger where
  "unreachable_ledger =
     \<lparr> followerCount_call = (\<lambda>a. Inl ReadContractError),
       followingCount_call = (\<lambda>a. Inl ReadContractError),
       getFollowersByIndex_call = (\<lambda>a s e. Inl ReadContractError),
       getFollowsByIndex_call = (\<lambda>a s e. Inl ReadContractError),
       isFollowing_call = (\<lambda>follower addr. Inl ReadContractError) \<rparr>"


definition hexDigit :: "nat \<Rightarrow> char" where
  "hexDigit d = ''0123456789abcdef'' ! d"

definition test_account :: "nat \<Rightarrow> address" where
  "test_account n = ''0x'' @ [hexDigit (n div 16 mod 16), hexDigit (n mod 16)]"

section \<open>Scenario data for the mutations\<close>

text \<open>
  The transaction that \<open>single m\<close> submits for one account and the one that \<open>many m\<close>
  submits for a list of accounts.
\<close>

definition singleTx :: "mode \<Rightarrow> address \<Rightarrow> tx" where
  "singleTx m a = (case m of Follow \<Rightarrow> FollowTx a | Unfollow \<Rightarrow> UnfollowTx a)"

definition batchTx :: "mode \<Rightarrow> address list \<Rightarrow> tx" where
  "batchTx m as = (case m of Follow \<Rightarrow> FollowBatchTx as | Unfollow \<Rightarrow> UnfollowBatchTx as)"

text \<open>
  A wallet that refuses every batched transaction and every single transaction for account C,
  and the followers B, C, D (the X, Y, Z of the scenario), all selected, once not yet
  followed and once followed.
\<close>

definition fallback_wallet :: wallet where
  "fallback_wallet =
     \<lparr> walletClient = True, provider = True, accounts = [acct_A],
       accepts = (\<lambda>n callData. callData = FollowTx acct_B \<or> callData = FollowTx acct_D
                                 \<or> callData = UnfollowTx acct_B \<or> callData = UnfollowTx acct_D),
       sent = [] \<rparr>"

definition selected_BCD :: "bool \<Rightarrow> FollowerData list" where
  "selected_BCD followed =
     map (\<lambda>a. \<lparr> fd_address = a, isMutual = followed, fd_isFollowing = followed,
                isSelected = True \<rparr>)
       [acct_B, acct_C, acct_D]"

text \<open>A wallet that accepts everything, and sixty selected followers not yet followed.\<close>

definition willing_wallet :: wallet where
  "willing_wallet =
     \<lparr> walletClient = True, provider = True, accounts = [acct_A],
       accepts = (\<lambda>n callData. True), sent = [] \<rparr>"

definition sixty_followers :: "FollowerData list" where
  "sixty_followers =
     map (\<lambda>n. \<lparr> fd_address = test_account n, isMutual = False, fd_isFollowing = False,
                isSelected = True \<rparr>)
       [0 ..< 60]"

section \<open>Scenario data for the recommendations\<close>

text \<open>
  Requester A and account B follow each other, and B also follows six further accounts.
  In \<open>later_ledger\<close> A has meanwhile followed the sixth of them. \<open>outage_ledger\<close> is
  the ledger in that later state while the RPC endpoint is failing: the counts still answer,
  every index read and every \<^verbatim>\<open>isFollowing\<close> read throws. In \<open>one_way_ledger\<close> B follows A
  and five further accounts, and A follows nobody.
\<close>

definition network_followersOf :: "address \<Rightarrow> address list" where
  "network_followersOf a =
     (if a = acct_A then [acct_B] else if a = acct_B then [acct_A] else [])"

definition network_followsOf :: "address \<Rightarrow> address list" where
  "network_followsOf a =
     (if a = acct_A then [acct_B]
      else if a = acct_B then acct_A # map test_account [1 ..< 7]
      else [])"

definition network_ledger :: ledger where
  "network_ledger = ledger_of network_followersOf network_followsOf"

definition later_followsOf :: "address \<Rightarrow> address list" where
  "later_followsOf a =
     (if a = acct_A then [acct_B, test_account 6] else network_followsOf a)"

definition later_ledger :: ledger where
  "later_ledger = ledger_of network_followersOf later_followsOf"

definition outage_ledger :: ledger where
  "outage_ledger =
     later_ledger
       \<lparr> getFollowersByIndex_call := (\<lambda>a s e. Inl ReadContractError),
         getFollowsByIndex_call := (\<lambda>a s e. Inl ReadContractError),
         isFollowing_call := (\<lambda>follower addr. Inl ReadContractError) \<rparr>"

definition one_way_ledger :: ledger where
  "one_way_ledger =
     ledger_of (\<lambda>a. if a = acct_A then [acct_B] else [])
               (\<lambda>a. if a = acct_B then acct_A # map test_account [1 ..< 6] else [])"

section \<open>Basic facts about the read methods\<close>



lemma getFollowerCount_eq:
  "getFollowerCount L a = Inr (case followerCount_call L a of Inl e \<Rightarrow> 0 | Inr n \<Rightarrow> n)"
  by (simp add: getFollowerCount_def try_catch_def await_def split: sum.splits)

lemma getFollowingCount_eq:
  "getFollowingCount L a = Inr (case followingCount_call L a of Inl e \<Rightarrow> 0 | Inr n \<Rightarrow> n)"
  by (simp add: getFollowingCount_def try_catch_def await_def split: sum.splits)

lemma getAllFollowers_resolves: "\<exists>xs. getAllFollowers L a = Inr xs"
  by (simp add: getAllFollowers_def try_catch_def await_def split: sum.splits)

lemma getAllFollowing_resolves: "\<exists>xs. getAllFollowing L a = Inr xs"
  by (simp add: getAllFollowing_def try_catch_def await_def split: sum.splits)

lemma getFollowers_resolves: "\<exists>xs. getFollowers L a i = Inr xs"
  by (simp add: getFollowers_def try_catch_def await_def Let_def split: sum.splits)

lemma getFollowing_resolves: "\<exists>xs. getFollowing L a i = Inr xs"
  by (simp add: getFollowing_def try_catch_def await_def Let_def split: sum.splits)

lemma isFollowing_resolves: "\<exists>b. isFollowing L a t = Inr b"
  by (auto simp: isFollowing_def try_catch_def await_def split: sum.splits)

lemma slice_all [simp]: "slice 0 (length xs) xs = xs"
  by (simp add: slice_def)

lemma ledger_of_counts [simp]:
  "getFollowerCount (ledger_of fs gs) a = Inr (length (fs a))"
  "getFollowingCount (ledger_of fs gs) a = Inr (length (gs a))"
  by (simp_all add: getFollowerCount_eq getFollowingCount_eq ledger_of_def)

lemma ledger_of_getAll [simp]:
  "getAllFollowers (ledger_of fs gs) a = Inr (fs a)"
  "getAllFollowing (ledger_of fs gs) a = Inr (gs a)"
  by (simp_all add: getAllFollowers_def getAllFollowing_def try_catch_def await_def
        ledger_of_def getFollowerCount_def getFollowingCount_def)


section \<open>The aggregation\<close>

lemma scenario_lower [simp]:
  "toLowerCase acct_A = ''0xa0''" "toLowerCase acct_B = ''0xb1''"
  "toLowerCase acct_C = ''0xc2''" "toLowerCase acct_D = ''0xd3''"
  "toLowerCase acct_E = ''0xe4''"
  by code_simp+




text \<open>
  C10. When either count is reported as zero, and a count whose read failed is reported as
  zero, \<^verbatim>\<open>getMutualConnections\<close> returns all four fields empty without reading either list,
  whatever the other direction holds.
\<close>

theorem zero_count_returns_the_empty_result:
  assumes "getFollowerCount L a = Inr 0 \<or> getFollowingCount L a = Inr 0
           \<or> followerCount_call L a = Inl e \<or> followingCount_call L a = Inl e"
  shows "getMutualConnections L a =
           Inr \<lparr> allFollowers = [], allFollowing = [], mutualConnections = [], mutualCount = 0 \<rparr>"
  using assms
  by (auto simp: getMutualConnections_def getFollowerCount_eq getFollowingCount_eq
        try_catch_def await_def empty_result_def split: sum.splits)

theorem zero_count_returns_the_empty_result_witness:
  "getFollowerCount (ledger_of (\<lambda>a. []) (\<lambda>a. [acct_E])) acct_A = Inr 0
   \<and> getAllFollowing (ledger_of (\<lambda>a. []) (\<lambda>a. [acct_E])) acct_A = Inr [acct_E]
   \<and> getMutualConnections (ledger_of (\<lambda>a. []) (\<lambda>a. [acct_E])) acct_A =
       Inr \<lparr> allFollowers = [], allFollowing = [], mutualConnections = [], mutualCount = 0 \<rparr>
   \<and> followerCount_call unreachable_ledger acct_A = Inl ReadContractError
   \<and> getMutualConnections unreachable_ledger acct_A =
       Inr \<lparr> allFollowers = [], allFollowing = [], mutualConnections = [], mutualCount = 0 \<rparr>"
proof -
  have zero: "getFollowerCount (ledger_of (\<lambda>a. []) (\<lambda>a. [acct_E])) acct_A = Inr 0"
    by simp
  have failed: "followerCount_call unreachable_ledger acct_A = Inl ReadContractError"
    by (simp add: unreachable_ledger_def)
  show ?thesis
    using zero failed
      zero_count_returns_the_empty_result
        [of "ledger_of (\<lambda>a. []) (\<lambda>a. [acct_E])" acct_A ReadContractError]
      zero_count_returns_the_empty_result [of unreachable_ledger acct_A ReadContractError]
    by simp
qed

text \<open>
  C4, as the code has it. When the read of a count fails, \<^verbatim>\<open>getFollowerCount\<close> and
  \<^verbatim>\<open>getFollowingCount\<close> log the error and resolve with 0; no error reaches the caller.
\<close>

theorem failed_count_read_is_reported_as_zero:
  "(followerCount_call L a = Inl e \<longrightarrow> getFollowerCount L a = Inr 0)
   \<and> (followingCount_call L a = Inl e \<longrightarrow> getFollowingCount L a = Inr 0)"
  by (simp add: getFollowerCount_eq getFollowingCount_eq)

theorem failed_count_read_is_reported_as_zero_witness:
  "followerCount_call unreachable_ledger acct_B = Inl ReadContractError
   \<and> getFollowerCount unreachable_ledger acct_B = Inr 0
   \<and> followingCount_call unreachable_ledger acct_B = Inl ReadContractError
   \<and> getFollowingCount unreachable_ledger acct_B = Inr 0"
  using failed_count_read_is_reported_as_zero [of unreachable_ledger acct_B ReadContractError]
  by (simp add: unreachable_ledger_def)

text \<open>
  The claim that a failed count read surfaces as an error fails: on a ledger whose reads all
  throw, both counts resolve with 0, exactly as they do on a ledger where the account has no
  follower and follows nobody.
\<close>

theorem failed_count_read_counterexample:
  "followerCount_call unreachable_ledger acct_A = Inl ReadContractError
   \<and> getFollowerCount unreachable_ledger acct_A = Inr 0
   \<and> getFollowerCount (ledger_of (\<lambda>a. []) (\<lambda>a. [])) acct_A = Inr 0
   \<and> followingCount_call unreachable_ledger acct_A = Inl ReadContractError
   \<and> getFollowingCount unreachable_ledger acct_A = Inr 0
   \<and> getFollowingCount (ledger_of (\<lambda>a. []) (\<lambda>a. [])) acct_A = Inr 0"
  by (simp add: getFollowerCount_eq getFollowingCount_eq unreachable_ledger_def ledger_of_def)




section \<open>Page-by-page reading in the recommendation flow\<close>

lemma getFollowers_ledger_of:
  "getFollowers (ledger_of fs gs) a i = Inr (take PAGE_SIZE (drop i (fs a)))"
proof (cases "fs a = []")
  case True
  then show ?thesis
    by (simp add: getFollowers_def try_catch_def await_def)
next
  case False
  have "take (min (i + PAGE_SIZE) (length (fs a)) - i) (drop i (fs a))
          = take PAGE_SIZE (drop i (fs a))"
    by (cases "i + PAGE_SIZE \<le> length (fs a)") (simp_all add: min_def)
  with False show ?thesis
    by (simp add: getFollowers_def try_catch_def await_def Let_def ledger_of_def
          getFollowerCount_def slice_def)
qed

lemma getFollowing_ledger_of:
  "getFollowing (ledger_of fs gs) a i = Inr (take PAGE_SIZE (drop i (gs a)))"
proof (cases "gs a = []")
  case True
  then show ?thesis
    by (simp add: getFollowing_def try_catch_def await_def)
next
  case False
  have "take (min (i + PAGE_SIZE) (length (gs a)) - i) (drop i (gs a))
          = take PAGE_SIZE (drop i (gs a))"
    by (cases "i + PAGE_SIZE \<le> length (gs a)") (simp_all add: min_def)
  with False show ?thesis
    by (simp add: getFollowing_def try_catch_def await_def Let_def ledger_of_def
          getFollowingCount_def slice_def)
qed

lemma fetchPages_short_first_page:
  assumes "getPage 0 = Inr batch" and "length batch \<noteq> batchSize"
  shows "fetchPages getPage 0 [] = Some (Inr batch)"
  using assms by (subst fetchPages.simps) simp

lemma fetchAllFollowers_ledger_of:
  "fetchAllFollowers (ledger_of fs gs) a = Some (Inr (take 50 (fs a)))"
  unfolding fetchAllFollowers_def
  by (rule fetchPages_short_first_page)
     (simp_all add: getFollowers_ledger_of PAGE_SIZE_def batchSize_def)

lemma fetchAllFollowing_ledger_of:
  "fetchAllFollowing (ledger_of fs gs) a = Some (Inr (take 50 (gs a)))"
  unfolding fetchAllFollowing_def
  by (rule fetchPages_short_first_page)
     (simp_all add: getFollowing_ledger_of PAGE_SIZE_def batchSize_def)

text \<open>
  C2. On a ledger in a fixed state the loop that collects the followers ends after its first
  round and yields the first 50 followers: a page of \<^verbatim>\<open>getFollowers\<close> holds at most
  \<^verbatim>\<open>PAGE_SIZE = 50\<close> entries and so never has the length \<^verbatim>\<open>batchSize = 100\<close> for which the loop
  continues. With 51 followers the result is not the follower list.
\<close>

theorem follower_pages_stop_after_fifty:
  "fetchAllFollowers (ledger_of followersOf followsOf) A = Some (Inr (take 50 (followersOf A)))
   \<and> fetchAllFollowers (ledger_of (\<lambda>a. map test_account [0 ..< 51]) followsOf) A
       = Some (Inr (map test_account [0 ..< 50]))
   \<and> fetchAllFollowers (ledger_of (\<lambda>a. map test_account [0 ..< 51]) followsOf) A
       \<noteq> Some (Inr (map test_account [0 ..< 51]))"
proof -
  have "take 50 (map test_account [0 ..< 51]) = map test_account [0 ..< 50]"
    by (simp add: take_map)
  moreover have "map test_account [0 ..< 50] \<noteq> map test_account [0 ..< 51]"
  proof
    assume "map test_account [0 ..< 50] = map test_account [0 ..< 51]"
    then have "length (map test_account [0 ..< 50]) = length (map test_account [0 ..< 51])"
      by (rule arg_cong)
    then show False by simp
  qed
  ultimately show ?thesis
    by (simp add: fetchAllFollowers_ledger_of)
qed

section \<open>The seed of the neighbourhood expansion\<close>

text \<open>
  C9, as the code has it. The seed is the first 20 mutual followers, then the first 20
  followers, then the first 20 accounts followed, in this order, at most 60 entries.
  Nothing removes duplicates: an account that is among the first 20 mutual followers and
  among the first 20 followers occurs at least twice.
\<close>

theorem extended_network_shape:
  "(let mutual = mutualFollowers followers (set (map toLowerCase following));
        network = extendedNetwork followers following
    in network = take 20 mutual @ take 20 followers @ take 20 following
       \<and> length network
           = min 20 (length mutual) + min 20 (length followers) + min 20 (length following)
       \<and> length network \<le> 60
       \<and> set (take 20 mutual) \<subseteq> set followers
       \<and> toLowerCase ` set (take 20 mutual) \<subseteq> toLowerCase ` set following
       \<and> (\<forall>a. a \<in> set (take 20 mutual) \<and> a \<in> set (take 20 followers)
              \<longrightarrow> 2 \<le> count_list network a))"
proof -
  let ?mutual = "mutualFollowers followers (set (map toLowerCase following))"
  have sub: "set (take 20 ?mutual) \<subseteq> set ?mutual"
    by (rule set_take_subset)
  have mutual: "set ?mutual \<subseteq> set followers"
    "toLowerCase ` set ?mutual \<subseteq> toLowerCase ` set following"
    by (auto simp: mutualFollowers_def)
  have twice: "2 \<le> count_list (extendedNetwork followers following) a"
    if "a \<in> set (take 20 ?mutual)" "a \<in> set (take 20 followers)" for a
  proof -
    from that have "count_list (take 20 ?mutual) a \<noteq> 0"
      "count_list (take 20 followers) a \<noteq> 0"
      by (simp_all only: count_list_0_iff not_not)
    then have "2 \<le> count_list (take 20 ?mutual) a + count_list (take 20 followers) a"
      by arith
    then show ?thesis
      by (simp add: extendedNetwork_def)
  qed
  from sub mutual have inside: "set (take 20 ?mutual) \<subseteq> set followers"
    "toLowerCase ` set (take 20 ?mutual) \<subseteq> toLowerCase ` set following"
    by blast+
  have shape: "extendedNetwork followers following
                 = take 20 ?mutual @ take 20 followers @ take 20 following"
    by (simp add: extendedNetwork_def)
  have size: "length (extendedNetwork followers following)
                = min 20 (length ?mutual) + min 20 (length followers) + min 20 (length following)"
    unfolding shape by (simp add: min.commute)
  then have bound: "length (extendedNetwork followers following) \<le> 60"
    by arith
  from shape size bound inside twice show ?thesis
    unfolding Let_def by blast
qed

theorem extended_network_shape_witness:
  "extendedNetwork [acct_B, acct_C] [acct_C] = [acct_C, acct_B, acct_C, acct_C]
   \<and> acct_C \<in> set (take 20 (mutualFollowers [acct_B, acct_C] (set (map toLowerCase [acct_C]))))
   \<and> acct_C \<in> set (take 20 [acct_B, acct_C])
   \<and> 2 \<le> count_list (extendedNetwork [acct_B, acct_C] [acct_C]) acct_C"
proof -
  have "acct_C \<in> set (take 20 (mutualFollowers [acct_B, acct_C] (set (map toLowerCase [acct_C]))))
        \<and> acct_C \<in> set (take 20 [acct_B, acct_C])"
    by (simp add: mutualFollowers_def)
  with extended_network_shape [of "[acct_B, acct_C]" "[acct_C]"]
  have "2 \<le> count_list (extendedNetwork [acct_B, acct_C] [acct_C]) acct_C"
    unfolding Let_def by blast
  then show ?thesis
    by (simp add: mutualFollowers_def extendedNetwork_def)
qed

text \<open>
  The claim that the seed holds no account twice fails: for a requester whose only follower
  is also the only account it follows, that account is the whole seed, three times.
\<close>

theorem extended_network_counterexample:
  "extendedNetwork [acct_B] [acct_B] = [acct_B, acct_B, acct_B]
   \<and> \<not> distinct (extendedNetwork [acct_B] [acct_B])"
  by (simp add: extendedNetwork_def mutualFollowers_def)

section \<open>Batched mutations and their fallback\<close>

lemma single_ready:
  assumes "walletClient w" "provider w" "accounts w \<noteq> []"
  shows "single m w a =
           (if accepts w (length (sent w)) (singleTx m a) then Inr True
            else Inl SendTransactionError,
            w \<lparr> sent := sent w @ [singleTx m a] \<rparr>)"
  using assms
  by (cases m) (simp_all add: single_def follow_def unfollow_def sendTransaction_def singleTx_def)

lemma many_ready:
  assumes "walletClient w" "provider w" "accounts w \<noteq> []" "as \<noteq> []"
  shows "many m w as =
           (if accepts w (length (sent w)) (batchTx m (take 50 as)) then Inr True
            else Inl SendTransactionError,
            w \<lparr> sent := sent w @ [batchTx m (take 50 as)] \<rparr>)"
  using assms
  by (cases m)
     (simp_all add: many_def followMany_def unfollowMany_def sendTransaction_def batchTx_def
        MAX_BATCH_SIZE_def Let_def)

lemma attemptEach_ready:
  assumes "walletClient w" "provider w" "accounts w \<noteq> []"
  shows "attemptEach m w xs =
           (map (\<lambda>(i, f). \<lparr> res_address = fd_address f,
                           success = accepts w i (singleTx m (fd_address f)) \<rparr>)
              (List.enumerate (length (sent w)) xs),
            w \<lparr> sent := sent w @ map (\<lambda>f. singleTx m (fd_address f)) xs \<rparr>)"
  using assms
proof (induction xs arbitrary: w)
  case Nil
  then show ?case by simp
next
  case (Cons f fs)
  let ?w1 = "w \<lparr> sent := sent w @ [singleTx m (fd_address f)] \<rparr>"
  have ready1: "walletClient ?w1" "provider ?w1" "accounts ?w1 \<noteq> []"
    using Cons.prems by simp_all
  show ?case
    using Cons.prems
    by (simp add: single_ready Cons.IH [OF ready1] resolved_def)
qed

lemma attemptEach_addresses:
  "map res_address (fst (attemptEach m w xs)) = map fd_address xs"
proof (induction xs arbitrary: w)
  case Nil
  then show ?case by simp
next
  case (Cons f fs)
  obtain p w1 where first: "single m w (fd_address f) = (p, w1)"
    by fastforce
  obtain rs w2 where rest: "attemptEach m w1 fs = (rs, w2)"
    by fastforce
  from Cons.IH [of w1] rest have "map res_address rs = map fd_address fs"
    by simp
  with first rest show ?case by simp
qed

lemma individual_results_addresses:
  "map res_address
     (map (\<lambda>(i, f). \<lparr> res_address = fd_address f, success = P i f \<rparr>) (List.enumerate k xs))
   = map fd_address xs"
  by (induction xs arbitrary: k) simp_all

lemma updateFollower_unchanged:
  assumes "\<forall>r \<in> set results. res_address r = fd_address f \<longrightarrow> \<not> success r"
  shows "updateFollower m results f = f"
proof (cases "find (\<lambda>r. res_address r = fd_address f) results")
  case None
  then show ?thesis by (simp add: updateFollower_def)
next
  case (Some r)
  then have "r \<in> set results" "res_address r = fd_address f"
    by (auto simp: find_Some_iff)
  with assms have "\<not> success r" by blast
  with Some show ?thesis by (simp add: updateFollower_def)
qed

lemma handleSelected_with_results:
  assumes "isConnected" and "me \<noteq> []"
    and "length (filter (wanted m) followers) \<noteq> 0"
    and "mutationResults m w (filter (wanted m) followers) = (results, w1)"
  shows "handleSelected m isConnected me w followers =
           (if length (filter success results) = length (filter (wanted m) followers)
            then AllSucceeded (length (filter success results))
            else SomeOf (length (filter success results))
                   (length (filter (wanted m) followers)),
            map (updateFollower m results) followers, w1)"
  using assms by (simp add: handleSelected_def Let_def)

lemma batch_failed:
  assumes "1 < length selectedFollowers"
    and "\<not> resolved (fst (many m w (take 50 (map fd_address selectedFollowers))))"
  shows "mutationResults m w selectedFollowers =
           attemptEach m (snd (many m w (take 50 (map fd_address selectedFollowers))))
             selectedFollowers"
proof (cases "50 < length selectedFollowers")
  case True
  with assms show ?thesis
    by (simp add: mutationResults_def MAX_BATCH_SIZE_def Let_def case_prod_beta)
next
  case False
  then have "take 50 (map fd_address selectedFollowers) = map fd_address selectedFollowers"
    by simp
  with assms False show ?thesis
    by (simp add: mutationResults_def MAX_BATCH_SIZE_def Let_def case_prod_beta)
qed

text \<open>
  C7. With a connected account, when more than one follower is selected and the batched
  mutation fails, for whatever reason, \<^verbatim>\<open>handleFollowSelected\<close> (mode \<open>Follow\<close>) and
  \<^verbatim>\<open>handleUnfollowSelected\<close> (mode \<open>Unfollow\<close>) attempt the single mutation for every selected
  follower: every selected follower gets exactly one result, in order; the report is the
  number of successful results against the number selected; and a follower none of whose
  results is a success stays unchanged in the updated list. When the wallet works (so that
  the batch failed because its transaction was refused), one single transaction is submitted
  for every selected follower after the batch, in order, whatever the fate of the earlier
  ones, and each result tells whether its own transaction was accepted.
\<close>

theorem batch_failure_falls_back_to_individual_mutations:
  assumes "isConnected" and "me \<noteq> []"
    and "1 < length (filter (wanted m) followers)"
    and "\<not> resolved (fst (many m w (take 50 (map fd_address (filter (wanted m) followers)))))"
  shows "\<exists>results w'.
           handleSelected m isConnected me w followers =
             (if length (filter success results) = length (filter (wanted m) followers)
              then AllSucceeded (length (filter success results))
              else SomeOf (length (filter success results))
                     (length (filter (wanted m) followers)),
              map (updateFollower m results) followers, w')
           \<and> map res_address results = map fd_address (filter (wanted m) followers)
           \<and> (\<forall>f \<in> set followers.
                 (\<forall>r \<in> set results. res_address r = fd_address f \<longrightarrow> \<not> success r)
                 \<longrightarrow> updateFollower m results f = f)
           \<and> (walletClient w \<and> provider w \<and> accounts w \<noteq> [] \<longrightarrow>
                 results =
                   map (\<lambda>(i, f). \<lparr> res_address = fd_address f,
                                   success = accepts w i (singleTx m (fd_address f)) \<rparr>)
                     (List.enumerate (Suc (length (sent w))) (filter (wanted m) followers))
                 \<and> w' = w \<lparr> sent := sent w
                             @ batchTx m (take 50 (map fd_address (filter (wanted m) followers)))
                             # map (\<lambda>f. singleTx m (fd_address f))
                                 (filter (wanted m) followers) \<rparr>)"
proof -
  let ?sel = "filter (wanted m) followers"
  let ?w1 = "snd (many m w (take 50 (map fd_address ?sel)))"
  obtain results w' where each: "attemptEach m ?w1 ?sel = (results, w')"
    by fastforce
  with assms(3,4) have run: "mutationResults m w ?sel = (results, w')"
    by (simp add: batch_failed)
  from assms(3) have some: "length ?sel \<noteq> 0" by arith
  have handled: "handleSelected m isConnected me w followers =
             (if length (filter success results) = length ?sel
              then AllSucceeded (length (filter success results))
              else SomeOf (length (filter success results)) (length ?sel),
              map (updateFollower m results) followers, w')"
    using assms(1,2) some run by (rule handleSelected_with_results)
  have addresses: "map res_address results = map fd_address ?sel"
    using attemptEach_addresses [of m ?w1 ?sel] each by simp
  have explicit: "results =
                   map (\<lambda>(i, f). \<lparr> res_address = fd_address f,
                                   success = accepts w i (singleTx m (fd_address f)) \<rparr>)
                     (List.enumerate (Suc (length (sent w))) ?sel)
                 \<and> w' = w \<lparr> sent := sent w @ batchTx m (take 50 (map fd_address ?sel))
                             # map (\<lambda>f. singleTx m (fd_address f)) ?sel \<rparr>"
    if ready: "walletClient w" "provider w" "accounts w \<noteq> []"
  proof -
    from assms(3) have "?sel \<noteq> []"
      by (metis less_nat_zero_code list.size(3))
    then have "take 50 (map fd_address ?sel) \<noteq> []" by simp
    from many_ready [OF ready this, of m]
    have w1: "?w1 = w \<lparr> sent := sent w @ [batchTx m (take 50 (map fd_address ?sel))] \<rparr>"
      by simp
    have ready1: "walletClient ?w1" "provider ?w1" "accounts ?w1 \<noteq> []"
      unfolding w1 using ready by simp_all
    from attemptEach_ready [OF ready1, of m ?sel] each show ?thesis
      unfolding w1 by simp
  qed
  from handled addresses updateFollower_unchanged explicit show ?thesis
    by blast
qed

theorem batch_failure_falls_back_to_individual_mutations_witness:
  "handleFollowSelected True acct_A fallback_wallet (selected_BCD False) =
     (SomeOf 2 3,
      [\<lparr> fd_address = acct_B, isMutual = True, fd_isFollowing = True, isSelected = True \<rparr>,
       \<lparr> fd_address = acct_C, isMutual = False, fd_isFollowing = False, isSelected = True \<rparr>,
       \<lparr> fd_address = acct_D, isMutual = True, fd_isFollowing = True, isSelected = True \<rparr>],
      fallback_wallet \<lparr> sent := [FollowBatchTx [acct_B, acct_C, acct_D],
                                  FollowTx acct_B, FollowTx acct_C, FollowTx acct_D] \<rparr>)
   \<and> handleUnfollowSelected True acct_A fallback_wallet (selected_BCD True) =
     (SomeOf 2 3,
      [\<lparr> fd_address = acct_B, isMutual = False, fd_isFollowing = False, isSelected = True \<rparr>,
       \<lparr> fd_address = acct_C, isMutual = True, fd_isFollowing = True, isSelected = True \<rparr>,
       \<lparr> fd_address = acct_D, isMutual = False, fd_isFollowing = False, isSelected = True \<rparr>],
      fallback_wallet \<lparr> sent := [UnfollowBatchTx [acct_B, acct_C, acct_D],
                                  UnfollowTx acct_B, UnfollowTx acct_C, UnfollowTx acct_D] \<rparr>)"
proof -
  have different: "acct_B \<noteq> acct_C" "acct_C \<noteq> acct_B" "acct_C \<noteq> acct_D" "acct_D \<noteq> acct_C"
    "acct_B \<noteq> acct_D" "acct_D \<noteq> acct_B" "acct_A \<noteq> []"
    by (simp_all add: acct_A_def acct_B_def acct_C_def acct_D_def)
  have chosen: "filter (wanted Follow) (selected_BCD False) = selected_BCD False"
    "filter (wanted Unfollow) (selected_BCD True) = selected_BCD True"
    by (simp_all add: selected_BCD_def wanted_def)
  have wallet: "walletClient fallback_wallet \<and> provider fallback_wallet
    \<and> accounts fallback_wallet \<noteq> []" "sent fallback_wallet = []"
    by (simp_all add: fallback_wallet_def)
  have accepted: "accepts fallback_wallet = (\<lambda>n callData.
      callData = FollowTx acct_B \<or> callData = FollowTx acct_D
      \<or> callData = UnfollowTx acct_B \<or> callData = UnfollowTx acct_D)"
    by (simp add: fallback_wallet_def)
  have failedF: "\<not> resolved (fst (many Follow fallback_wallet
        (take 50 (map fd_address (filter (wanted Follow) (selected_BCD False))))))"
    and failedU: "\<not> resolved (fst (many Unfollow fallback_wallet
        (take 50 (map fd_address (filter (wanted Unfollow) (selected_BCD True))))))"
    unfolding chosen
    by (simp_all add: selected_BCD_def many_def followMany_def unfollowMany_def
          sendTransaction_def fallback_wallet_def MAX_BATCH_SIZE_def resolved_def)
  have more: "1 < length (filter (wanted Follow) (selected_BCD False))"
    "1 < length (filter (wanted Unfollow) (selected_BCD True))"
    unfolding chosen by (simp_all add: selected_BCD_def)
  from batch_failure_falls_back_to_individual_mutations
         [of True acct_A Follow "selected_BCD False" fallback_wallet,
          OF TrueI different(7) more(1) failedF]
  have follow: "handleFollowSelected True acct_A fallback_wallet (selected_BCD False) =
     (SomeOf 2 3,
      [\<lparr> fd_address = acct_B, isMutual = True, fd_isFollowing = True, isSelected = True \<rparr>,
       \<lparr> fd_address = acct_C, isMutual = False, fd_isFollowing = False, isSelected = True \<rparr>,
       \<lparr> fd_address = acct_D, isMutual = True, fd_isFollowing = True, isSelected = True \<rparr>],
      fallback_wallet \<lparr> sent := [FollowBatchTx [acct_B, acct_C, acct_D],
                                  FollowTx acct_B, FollowTx acct_C, FollowTx acct_D] \<rparr>)"
    unfolding chosen handleFollowSelected_def using wallet(1)
    by (auto simp: wallet(2) accepted selected_BCD_def different singleTx_def batchTx_def
          updateFollower_def mark_def)
  from batch_failure_falls_back_to_individual_mutations
         [of True acct_A Unfollow "selected_BCD True" fallback_wallet,
          OF TrueI different(7) more(2) failedU]
  have unfollow: "handleUnfollowSelected True acct_A fallback_wallet (selected_BCD True) =
     (SomeOf 2 3,
      [\<lparr> fd_address = acct_B, isMutual = False, fd_isFollowing = False, isSelected = True \<rparr>,
       \<lparr> fd_address = acct_C, isMutual = True, fd_isFollowing = True, isSelected = True \<rparr>,
       \<lparr> fd_address = acct_D, isMutual = False, fd_isFollowing = False, isSelected = True \<rparr>],
      fallback_wallet \<lparr> sent := [UnfollowBatchTx [acct_B, acct_C, acct_D],
                                  UnfollowTx acct_B, UnfollowTx acct_C, UnfollowTx acct_D] \<rparr>)"
    unfolding chosen handleUnfollowSelected_def using wallet(1)
    by (auto simp: wallet(2) accepted selected_BCD_def different singleTx_def batchTx_def
          updateFollower_def mark_def)
  from follow unfollow show ?thesis by (rule conjI)
qed

section \<open>Batches of more than fifty accounts\<close>

lemma truncated_results_success:
  assumes "50 \<le> length as"
  shows "map success
           (map (\<lambda>(address, index). \<lparr> res_address = address, success = index < 50 \<rparr>)
              (zip as [0 ..< length as]))
         = replicate 50 True @ replicate (length as - 50) False"
proof -
  have low: "map (\<lambda>index::nat. index < 50) [0 ..< 50] = replicate 50 True"
  proof -
    have "map (\<lambda>index::nat. index < 50) [0 ..< 50] = map (\<lambda>index. True) [0 ..< 50]"
      by (rule map_cong) simp_all
    then show ?thesis by (simp add: map_replicate_const)
  qed
  have high: "map (\<lambda>index::nat. index < 50) [50 ..< length as]
                = replicate (length as - 50) False"
  proof -
    have "map (\<lambda>index::nat. index < 50) [50 ..< length as]
            = map (\<lambda>index. False) [50 ..< length as]"
      by (rule map_cong) simp_all
    then show ?thesis by (simp add: map_replicate_const)
  qed
  have split: "[0 ..< length as] = [0 ..< 50] @ [50 ..< length as]"
    using assms upt_add_eq_append [of 0 50 "length as - 50"] by simp
  have "map success
           (map (\<lambda>(address, index). \<lparr> res_address = address, success = index < 50 \<rparr>)
              (zip as [0 ..< length as]))
        = map (\<lambda>x. snd x < 50) (zip as [0 ..< length as])"
    by (simp add: case_prod_unfold comp_def)
  also have "\<dots> = map (\<lambda>index. index < 50) (map snd (zip as [0 ..< length as]))"
    by (simp only: map_map comp_def)
  also have "\<dots> = map (\<lambda>index. index < 50) [0 ..< length as]"
    by simp
  also have "\<dots> = map (\<lambda>index. index < 50) [0 ..< 50]
                    @ map (\<lambda>index. index < 50) [50 ..< length as]"
    by (subst split) (simp only: map_append)
  finally show ?thesis
    by (simp only: low high)
qed

lemma truncated_results_addresses:
  "map res_address
     (map (\<lambda>(address, index). \<lparr> res_address = address, success = index < 50 \<rparr>)
        (zip as [0 ..< length as]))
   = as"
proof -
  have "map res_address
     (map (\<lambda>(address, index). \<lparr> res_address = address, success = index < 50 \<rparr>)
        (zip as [0 ..< length as]))
     = map fst (zip as [0 ..< length as])"
    by (simp add: case_prod_unfold comp_def)
  then show ?thesis by simp
qed

lemma count_successes:
  "length (filter success rs) = length (filter (\<lambda>b. b) (map success rs))"
  by (simp add: filter_map comp_def)

text \<open>
  C8, as the code has it. With a connected account and a working wallet, when more than 50
  followers are selected and the batched transaction is accepted, \<^verbatim>\<open>handleFollowSelected\<close>
  (and \<^verbatim>\<open>handleUnfollowSelected\<close>) submits one batched transaction with exactly the first 50
  selected accounts and nothing else, gives every selected account a result, a success for
  the first 50 and a failure for every account after them, and reports 50 of the number
  selected.
\<close>

theorem oversized_batch_is_truncated_and_reported:
  assumes "isConnected" and "me \<noteq> []"
    and "walletClient w" and "provider w" and "accounts w \<noteq> []"
    and "50 < length (filter (wanted m) followers)"
    and "accepts w (length (sent w))
           (batchTx m (take 50 (map fd_address (filter (wanted m) followers))))"
  shows "(let selectedFollowers = filter (wanted m) followers;
              addresses = map fd_address selectedFollowers;
              results =
                map (\<lambda>(address, index). \<lparr> res_address = address, success = index < 50 \<rparr>)
                  (zip addresses [0 ..< length addresses])
          in handleSelected m isConnected me w followers =
               (SomeOf 50 (length selectedFollowers),
                map (updateFollower m results) followers,
                w \<lparr> sent := sent w @ [batchTx m (take 50 addresses)] \<rparr>)
             \<and> map res_address results = addresses
             \<and> map success results
                 = replicate 50 True @ replicate (length addresses - 50) False)"
proof -
  let ?sel = "filter (wanted m) followers"
  let ?as = "map fd_address ?sel"
  let ?results = "map (\<lambda>(address, index). \<lparr> res_address = address, success = index < 50 \<rparr>)
                    (zip ?as [0 ..< length ?as])"
  let ?w1 = "w \<lparr> sent := sent w @ [batchTx m (take 50 ?as)] \<rparr>"
  from assms(6) have long: "50 \<le> length ?as" "length ?sel \<noteq> 1" "length ?sel \<noteq> 0"
    "length ?sel \<noteq> 50"
    by (simp_all only: length_map)
  from assms(6) have "?sel \<noteq> []"
    by (metis less_nat_zero_code list.size(3))
  then have "take 50 ?as \<noteq> []" by simp
  from many_ready [OF assms(3-5) this, of m] assms(7)
  have batch: "many m w (take 50 ?as) = (Inr True, ?w1)"
    by simp
  have run: "mutationResults m w ?sel = (?results, ?w1)"
    using assms(6) long(2) batch
    by (simp add: mutationResults_def MAX_BATCH_SIZE_def resolved_def Let_def)
  have successes: "map success ?results = replicate 50 True @ replicate (length ?as - 50) False"
    using long(1) by (rule truncated_results_success)
  have counted: "length (filter success ?results) = 50"
  proof -
    have "length (filter success ?results) = length (filter (\<lambda>b. b) (map success ?results))"
      by (rule count_successes)
    also have "\<dots> = length (filter (\<lambda>b. b)
                           (replicate 50 True @ replicate (length ?as - 50) False))"
      by (simp only: successes)
    also have "\<dots> = 50"
      by simp
    finally show ?thesis .
  qed
  have handled: "handleSelected m isConnected me w followers =
               (SomeOf 50 (length ?sel), map (updateFollower m ?results) followers, ?w1)"
  proof -
    have "handleSelected m isConnected me w followers =
           (if length (filter success ?results) = length ?sel
            then AllSucceeded (length (filter success ?results))
            else SomeOf (length (filter success ?results)) (length ?sel),
            map (updateFollower m ?results) followers, ?w1)"
      using assms(1,2) long(3) run by (rule handleSelected_with_results)
    also have "\<dots> = (SomeOf 50 (length ?sel), map (updateFollower m ?results) followers, ?w1)"
      unfolding counted by (simp only: long(4) [symmetric] if_False)
    finally show ?thesis .
  qed
  from handled successes truncated_results_addresses [of ?as] show ?thesis
    unfolding Let_def by simp
qed

theorem oversized_batch_is_truncated_and_reported_witness:
  "fst (handleFollowSelected True acct_A willing_wallet sixty_followers) = SomeOf 50 60
   \<and> sent (snd (snd (handleFollowSelected True acct_A willing_wallet sixty_followers)))
       = [FollowBatchTx (map test_account [0 ..< 50])]"
proof -
  have chosen: "filter (wanted Follow) sixty_followers = sixty_followers"
    by (simp add: sixty_followers_def wanted_def filter_map comp_def)
  have size: "length sixty_followers = 60"
    by (simp add: sixty_followers_def)
  have addresses: "take 50 (map fd_address sixty_followers) = map test_account [0 ..< 50]"
    by (simp add: sixty_followers_def take_map comp_def)
  have wallet: "walletClient willing_wallet" "provider willing_wallet"
    "accounts willing_wallet \<noteq> []" "sent willing_wallet = []"
    "accepts willing_wallet (length (sent willing_wallet))
       (batchTx Follow (take 50 (map fd_address (filter (wanted Follow) sixty_followers))))"
    by (simp_all add: willing_wallet_def)
  have me: "acct_A \<noteq> []" by (simp add: acct_A_def)
  have more: "50 < length (filter (wanted Follow) sixty_followers)"
    by (simp add: chosen size)
  from oversized_batch_is_truncated_and_reported
         [of True acct_A willing_wallet Follow sixty_followers,
          OF TrueI me wallet(1-3) more wallet(5)]
  show ?thesis
    unfolding Let_def chosen handleFollowSelected_def
    by (simp add: size addresses wallet(4) batchTx_def)
qed

text \<open>
  The claim that accounts beyond the cap are never dropped without a report fails for
  \<^verbatim>\<open>followMany\<close> itself, which three other components call with the whole selection: given 60
  targets it submits the first 50 and resolves with \<^verbatim>\<open>true\<close>, exactly as it does when given
  those 50 alone; the ten accounts left out appear only in a console warning.
\<close>

theorem oversized_batch_counterexample:
  "followMany willing_wallet (map test_account [0 ..< 60]) =
     (Inr True, willing_wallet \<lparr> sent := [FollowBatchTx (map test_account [0 ..< 50])] \<rparr>)
   \<and> followMany willing_wallet (map test_account [0 ..< 50]) =
     (Inr True, willing_wallet \<lparr> sent := [FollowBatchTx (map test_account [0 ..< 50])] \<rparr>)"
  by (simp add: followMany_def willing_wallet_def sendTransaction_def MAX_BATCH_SIZE_def
        Let_def take_map)

section \<open>The recommendation list\<close>

lemma fetchPages_resolves_aux:
  assumes "fetchPages getPage page acc = Some r"
  shows "(\<forall>i. \<exists>xs. getPage i = Inr xs) \<longrightarrow> (\<exists>xs. r = Inr xs)"
  using assms
proof (induction rule: fetchPages.raw_induct [rotated 1, consumes 1])
  case (1 fetch getPage page acc r)
  note IH = "1"(1) and body = "1"(2)
  show ?case
  proof
    assume pages: "\<forall>i. \<exists>xs. getPage i = Inr xs"
    then obtain batch where batch: "getPage (page * batchSize) = Inr batch"
      by blast
    show "\<exists>xs. r = Inr xs"
    proof (cases "length batch = batchSize")
      case True
      with body batch have "fetch getPage (page + 1) (acc @ batch) = Some r"
        by simp
      from IH [OF this] pages show ?thesis by blast
    next
      case False
      with body batch show ?thesis by auto
    qed
  qed
qed

lemma fetchPages_resolves:
  assumes "fetchPages getPage page acc = Some r" and "\<And>i. \<exists>xs. getPage i = Inr xs"
  shows "\<exists>xs. r = Inr xs"
  using fetchPages_resolves_aux [OF assms(1)] assms(2) by blast

lemma fetchAllFollowing_resolves:
  assumes "fetchAllFollowing L a = Some r"
  shows "\<exists>xs. r = Inr xs"
  using assms getFollowing_resolves unfolding fetchAllFollowing_def
  by (rule fetchPages_resolves)

lemma foldl_invariant:
  assumes "P a" and "\<And>a x. P a \<Longrightarrow> P (f a x)"
  shows "P (foldl f a xs)"
  using assms(1) by (induction xs arbitrary: a) (simp_all add: assms(2))

lemma addCandidate_keys:
  assumes "fst ` set cands \<subseteq> {k. toLowerCase k \<noteq> toLowerCase me \<and> toLowerCase k \<notin> F}"
  shows "fst ` set (addCandidate me F seed cands p)
           \<subseteq> {k. toLowerCase k \<noteq> toLowerCase me \<and> toLowerCase k \<notin> F}"
proof (cases "toLowerCase p = toLowerCase me \<or> toLowerCase p \<in> F")
  case True
  with assms show ?thesis by (simp add: addCandidate_def)
next
  case False
  then have "addCandidate me F seed cands p \<in> {AList.update p v cands | v. True}"
    by (auto simp: addCandidate_def Let_def)
  then obtain v where "addCandidate me F seed cands p = AList.update p v cands"
    by blast
  with assms False show ?thesis
    by (simp add: dom_update)
qed

lemma expandSeed_keys:
  assumes "fst ` set cands \<subseteq> {k. toLowerCase k \<noteq> toLowerCase me \<and> toLowerCase k \<notin> F}"
  shows "fst ` set (expandSeed L me F cands seed)
           \<subseteq> {k. toLowerCase k \<noteq> toLowerCase me \<and> toLowerCase k \<notin> F}"
proof -
  let ?P = "\<lambda>cands. fst ` set cands
              \<subseteq> {k. toLowerCase k \<noteq> toLowerCase me \<and> toLowerCase k \<notin> F}"
  have step: "?P (foldl (addCandidate me F seed) c xs)" if "?P c" for c xs
    using that by (rule foldl_invariant) (rule addCandidate_keys)
  show ?thesis
  proof (cases "getFollowing L seed 0")
    case (Inl e)
    with assms show ?thesis by (simp add: expandSeed_def)
  next
    case following: (Inr networkFollowing)
    show ?thesis
    proof (cases "getFollowers L seed 0")
      case (Inl e)
      with following step [OF assms] show ?thesis by (simp add: expandSeed_def)
    next
      case (Inr networkFollowers)
      with following step [OF step [OF assms]] show ?thesis by (simp add: expandSeed_def)
    qed
  qed
qed

lemma candidateProfiles_keys:
  "fst ` set (candidateProfiles L me F network)
     \<subseteq> {k. toLowerCase k \<noteq> toLowerCase me \<and> toLowerCase k \<notin> F}"
  unfolding candidateProfiles_def
  by (rule foldl_invariant) (simp, rule expandSeed_keys)

lemma sortedCandidates_subset: "set (sortedCandidates cs) \<subseteq> set cs"
  unfolding sortedCandidates_def using set_take_subset [of 50] by fastforce

lemma recency_bonus: "Math_round (double_mul 20 recentActivityWeight) = 6"
  by code_simp

lemma weightedScore_eq:
  "weightedScore mutualLength networkSize draw ranked entry =
     min 98 (max 50
       ((if 0 < mutualLength
         then Math_round
                (double_mul
                   (double_mul
                      (double_div (of_nat (cand_mutualCount (snd entry))) (of_nat networkSize))
                      100)
                   networkSizeWeight)
         else int (draw mod 36) + 60) + 6))"
  by (simp add: weightedScore_def indexOf_literal_def recency_bonus Let_def)

lemma processCandidate_Some:
  assumes "processCandidate L me rnd mutualLength networkSize current ranked entry = Some r"
  shows "rec_address r = fst entry"
    and "toLowerCase (fst entry) \<notin> current"
    and "isFollowing L me (fst entry) = Inr False"
    and "score r = weightedScore mutualLength networkSize (rnd (fst entry)) ranked entry"
    and "rec_mutualFollowers r = cand_mutualCount (snd entry)"
  using assms
  by (auto simp: processCandidate_def split: if_splits sum.splits)

lemma networkStage_Network:
  assumes "networkStage L L' rnd me followers following = Some (NetworkRecommendations recs)"
  shows "\<exists>current.
           fetchAllFollowing L' me = Some (Inr current)
           \<and> recs =
               List.map_filter
                 (processCandidate L' me rnd
                    (length (mutualFollowers followers (set (map toLowerCase following))))
                    (length (extendedNetwork followers following))
                    (set (map toLowerCase current))
                    (sortedCandidates
                       (candidateProfiles L me (set (map toLowerCase following))
                          (extendedNetwork followers following))))
                 (sortedCandidates
                    (candidateProfiles L me (set (map toLowerCase following))
                       (extendedNetwork followers following)))"
proof -
  from assms obtain refetched where again: "fetchAllFollowing L' me = Some refetched"
    by (auto simp: networkStage_def Let_def split: if_splits Option.bind_splits)
  then obtain current where current: "refetched = Inr current"
    using fetchAllFollowing_resolves by blast
  from assms again current show ?thesis
    by (auto simp: networkStage_def Let_def split: if_splits)
qed

lemma generateRecommendations_Network:
  assumes "generateRecommendations isConnected L L' rnd me = Some (NetworkRecommendations recs)"
  shows "\<exists>followers following.
           fetchAllFollowers L me = Some (Inr followers)
           \<and> fetchAllFollowing L me = Some (Inr following)
           \<and> networkStage L L' rnd me followers following = Some (NetworkRecommendations recs)"
  using assms
  by (auto simp: generateRecommendations_def split: if_splits Option.bind_splits sum.splits)

lemma isFollowing_ledger_of:
  "isFollowing (ledger_of fs gs) a t = Inr (toLowerCase t \<in> toLowerCase ` set (gs a))"
  by (simp add: isFollowing_def try_catch_def await_def ledger_of_def)

lemma isFollowing_False:
  assumes "isFollowing L a t = Inr False"
  shows "isFollowing_call L a t \<noteq> Inr True"
  using assms by (auto simp: isFollowing_def try_catch_def await_def)

text \<open>
  C5, as the code has it. Every profile in the list that the network path returns differs
  from the requester without regard to case, is absent from the following list as the flow
  read it before the seed was expanded, is absent from the following list as the flow read
  it again afterwards, and its own \<^verbatim>\<open>isFollowing\<close> read did not answer "followed": it
  answered "not followed" or it threw, which \<^verbatim>\<open>isFollowing\<close> reports as "not followed".
  Whenever that read was answered by the ledger from its state, the profile is not among the
  accounts the requester follows in that state.
\<close>

theorem recommendations_exclude_requester_and_followed:
  assumes "generateRecommendations isConnected L L' rnd me = Some (NetworkRecommendations recs)"
    and "r \<in> set recs"
  shows "toLowerCase (rec_address r) \<noteq> toLowerCase me
         \<and> (\<exists>following. fetchAllFollowing L me = Some (Inr following)
                \<and> toLowerCase (rec_address r) \<notin> toLowerCase ` set following)
         \<and> (\<exists>current. fetchAllFollowing L' me = Some (Inr current)
                \<and> toLowerCase (rec_address r) \<notin> toLowerCase ` set current)
         \<and> isFollowing L' me (rec_address r) = Inr False
         \<and> isFollowing_call L' me (rec_address r) \<noteq> Inr True
         \<and> (\<forall>followersOf followsOf.
                isFollowing_call L' me (rec_address r)
                  = isFollowing_call (ledger_of followersOf followsOf) me (rec_address r)
                \<longrightarrow> toLowerCase (rec_address r) \<notin> toLowerCase ` set (followsOf me))"
proof -
  from assms(1) obtain followers following
    where following: "fetchAllFollowing L me = Some (Inr following)"
      and stage: "networkStage L L' rnd me followers following = Some (NetworkRecommendations recs)"
    using generateRecommendations_Network by blast
  let ?F = "set (map toLowerCase following)"
  let ?ranked = "sortedCandidates (candidateProfiles L me ?F (extendedNetwork followers following))"
  from networkStage_Network [OF stage] obtain current
    where current: "fetchAllFollowing L' me = Some (Inr current)"
      and recs: "recs = List.map_filter
                 (processCandidate L' me rnd
                    (length (mutualFollowers followers ?F))
                    (length (extendedNetwork followers following))
                    (set (map toLowerCase current)) ?ranked) ?ranked"
    by blast
  from assms(2) recs obtain entry
    where entry: "entry \<in> set ?ranked"
      and made: "processCandidate L' me rnd (length (mutualFollowers followers ?F))
                   (length (extendedNetwork followers following))
                   (set (map toLowerCase current)) ?ranked entry = Some r"
    by (auto simp: List.map_filter_def)
  note facts = processCandidate_Some [OF made]
  from entry sortedCandidates_subset
  have "fst entry \<in> fst ` set (candidateProfiles L me ?F (extendedNetwork followers following))"
    by blast
  with candidateProfiles_keys
  have built: "toLowerCase (fst entry) \<noteq> toLowerCase me" "toLowerCase (fst entry) \<notin> ?F"
    by blast+
  from facts(3) have read: "isFollowing_call L' me (rec_address r) \<noteq> Inr True"
    unfolding facts(1) by (rule isFollowing_False)
  have unfollowed: "toLowerCase (rec_address r) \<notin> toLowerCase ` set (followsOf me)"
    if "isFollowing_call L' me (rec_address r)
          = isFollowing_call (ledger_of followersOf followsOf) me (rec_address r)"
    for followersOf followsOf
    using read unfolding that by (simp add: ledger_of_def)
  from built facts(1,2,3) following current read unfollowed show ?thesis
    by auto
qed

lemma network_scenario_run:
  "generateRecommendations True network_ledger later_ledger (\<lambda>a. 0) acct_A =
     Some (NetworkRecommendations
       (map (\<lambda>n. \<lparr> rec_address = test_account n, score = 76, rec_reason = HighlyPopular 3,
                   rec_mutualFollowers = 3, mutualFollowerSources = [acct_B] \<rparr>)
          [1 ..< 6]))"
  by code_simp

lemma network_scenario_lists:
  "fetchAllFollowers network_ledger acct_A = Some (Inr [acct_B])"
  "fetchAllFollowing network_ledger acct_A = Some (Inr [acct_B])"
  by (simp_all add: network_ledger_def fetchAllFollowers_ledger_of fetchAllFollowing_ledger_of
        network_followersOf_def network_followsOf_def)

lemma network_scenario_ranked:
  "sortedCandidates
     (candidateProfiles network_ledger acct_A (set (map toLowerCase [acct_B]))
        (extendedNetwork [acct_B] [acct_B]))
   = map (\<lambda>n. (test_account n, \<lparr> cand_mutualCount = 3, sources = [acct_B] \<rparr>)) [1 ..< 7]"
  by code_simp

theorem recommendations_exclude_requester_and_followed_witness:
  "generateRecommendations True network_ledger later_ledger (\<lambda>a. 0) acct_A =
     Some (NetworkRecommendations
       (map (\<lambda>n. \<lparr> rec_address = test_account n, score = 76, rec_reason = HighlyPopular 3,
                   rec_mutualFollowers = 3, mutualFollowerSources = [acct_B] \<rparr>)
          [1 ..< 6]))
   \<and> toLowerCase (test_account 1) \<noteq> toLowerCase acct_A
   \<and> isFollowing later_ledger acct_A (test_account 1) = Inr False
   \<and> isFollowing_call later_ledger acct_A (test_account 1) \<noteq> Inr True
   \<and> toLowerCase (test_account 1) \<notin> toLowerCase ` set (later_followsOf acct_A)"
proof -
  let ?r = "\<lparr> rec_address = test_account 1, score = 76, rec_reason = HighlyPopular 3,
               rec_mutualFollowers = 3, mutualFollowerSources = [acct_B] \<rparr>"
  have listed: "?r \<in> set (map (\<lambda>n. \<lparr> rec_address = test_account n, score = 76,
                   rec_reason = HighlyPopular 3, rec_mutualFollowers = 3,
                   mutualFollowerSources = [acct_B] \<rparr>) [1 ..< 6])"
    by simp
  note excluded = recommendations_exclude_requester_and_followed
                    [OF network_scenario_run listed]
  from excluded have apart: "toLowerCase (test_account 1) \<noteq> toLowerCase acct_A"
    and unfollowed: "isFollowing later_ledger acct_A (test_account 1) = Inr False"
    and read: "isFollowing_call later_ledger acct_A (test_account 1) \<noteq> Inr True"
    by simp_all
  from excluded
  have "isFollowing_call later_ledger acct_A (rec_address ?r)
          = isFollowing_call (ledger_of network_followersOf later_followsOf) acct_A
              (rec_address ?r)
        \<longrightarrow> toLowerCase (rec_address ?r) \<notin> toLowerCase ` set (later_followsOf acct_A)"
    by blast
  then have absent: "toLowerCase (test_account 1) \<notin> toLowerCase ` set (later_followsOf acct_A)"
    by (simp add: later_ledger_def)
  from network_scenario_run apart unfollowed read absent show ?thesis
    by blast
qed

text \<open>
  The claim that no returned profile is followed by the requester fails. The lists are read
  and the seed is expanded while A follows only B; A then follows account \<open>0x06\<close>, one of the
  accounts B follows. At re-verification the index reads and the \<^verbatim>\<open>isFollowing\<close> reads throw:
  \<^verbatim>\<open>getFollowing\<close> answers the empty list, \<^verbatim>\<open>isFollowing\<close> answers \<^verbatim>\<open>false\<close>, neither check
  removes anything, and \<open>0x06\<close> is returned although A follows it.
\<close>

theorem recommendations_exclusion_counterexample:
  "generateRecommendations True network_ledger outage_ledger (\<lambda>a. 0) acct_A =
     Some (NetworkRecommendations
       [\<lparr> rec_address = test_account 1, score = 76, rec_reason = HighlyPopular 3,
           rec_mutualFollowers = 3, mutualFollowerSources = [acct_B] \<rparr>,
        \<lparr> rec_address = test_account 2, score = 76, rec_reason = HighlyPopular 3,
           rec_mutualFollowers = 3, mutualFollowerSources = [acct_B] \<rparr>,
        \<lparr> rec_address = test_account 3, score = 76, rec_reason = HighlyPopular 3,
           rec_mutualFollowers = 3, mutualFollowerSources = [acct_B] \<rparr>,
        \<lparr> rec_address = test_account 4, score = 76, rec_reason = HighlyPopular 3,
           rec_mutualFollowers = 3, mutualFollowerSources = [acct_B] \<rparr>,
        \<lparr> rec_address = test_account 5, score = 76, rec_reason = HighlyPopular 3,
           rec_mutualFollowers = 3, mutualFollowerSources = [acct_B] \<rparr>,
        \<lparr> rec_address = test_account 6, score = 76, rec_reason = HighlyPopular 3,
           rec_mutualFollowers = 3, mutualFollowerSources = [acct_B] \<rparr>])
   \<and> followingCount_call outage_ledger acct_A = Inr 2
   \<and> getFollowsByIndex_call outage_ledger acct_A 0 2 = Inl ReadContractError
   \<and> isFollowing_call outage_ledger acct_A (test_account 6) = Inl ReadContractError
   \<and> later_followsOf acct_A = [acct_B, test_account 6]
   \<and> toLowerCase (test_account 6) \<in> set (map toLowerCase (later_followsOf acct_A))"
  by code_simp

section \<open>The score\<close>

text \<open>
  The score of every profile in the list that the network path returns, whatever its rank:
  the base plus 6, kept between 50 and 98. The test for "among the first 20" is
  \<^verbatim>\<open>indexOf\<close> of a fresh array literal, which is \<open>-1\<close> for every candidate.
\<close>

lemma score_of_every_candidate:
  assumes "generateRecommendations isConnected L L' rnd me = Some (NetworkRecommendations recs)"
    and "r \<in> set recs"
    and "fetchAllFollowers L me = Some (Inr followers)"
    and "fetchAllFollowing L me = Some (Inr following)"
  shows "0 < length (extendedNetwork followers following)
         \<and> score r =
           min 98 (max 50
             ((if 0 < length (mutualFollowers followers (set (map toLowerCase following)))
               then Math_round
                      (double_mul
                         (double_mul
                            (double_div (of_nat (rec_mutualFollowers r))
                               (of_nat (length (extendedNetwork followers following))))
                            100)
                         networkSizeWeight)
               else int (rnd (rec_address r) mod 36) + 60) + 6))"
proof -
  from assms(1) obtain followers' following'
    where "fetchAllFollowers L me = Some (Inr followers')"
      and "fetchAllFollowing L me = Some (Inr following')"
      and "networkStage L L' rnd me followers' following' = Some (NetworkRecommendations recs)"
    using generateRecommendations_Network by blast
  with assms(3,4)
  have stage: "networkStage L L' rnd me followers following = Some (NetworkRecommendations recs)"
    by simp
  let ?F = "set (map toLowerCase following)"
  let ?ranked = "sortedCandidates (candidateProfiles L me ?F (extendedNetwork followers following))"
  from networkStage_Network [OF stage] obtain current
    where recs: "recs = List.map_filter
                 (processCandidate L' me rnd
                    (length (mutualFollowers followers ?F))
                    (length (extendedNetwork followers following))
                    (set (map toLowerCase current)) ?ranked) ?ranked"
    by blast
  from assms(2) recs obtain entry
    where made: "processCandidate L' me rnd (length (mutualFollowers followers ?F))
                   (length (extendedNetwork followers following))
                   (set (map toLowerCase current)) ?ranked entry = Some r"
    by (auto simp: List.map_filter_def)
  note facts = processCandidate_Some [OF made]
  from assms(2) recs have "?ranked \<noteq> []"
    by (auto simp: List.map_filter_def)
  then have "candidateProfiles L me ?F (extendedNetwork followers following) \<noteq> []"
    by (auto simp: sortedCandidates_def)
  then have seed: "0 < length (extendedNetwork followers following)"
    by (auto simp: candidateProfiles_def)
  have "score r =
           min 98 (max 50
             ((if 0 < length (mutualFollowers followers ?F)
               then Math_round
                      (double_mul
                         (double_mul
                            (double_div (of_nat (rec_mutualFollowers r))
                               (of_nat (length (extendedNetwork followers following))))
                            100)
                         networkSizeWeight)
               else int (rnd (rec_address r) mod 36) + 60) + 6))"
    unfolding facts(4) weightedScore_eq facts(1) facts(5) ..
  with seed show ?thesis by (rule conjI)
qed

text \<open>
  C6, as the code has it. For a profile in the list that the network path returns and that
  is among the first 20 ranked candidates, the score is the base plus the bonus of 6, kept
  between 50 and 98. When the requester has at least one mutual follower the base is
  \<^verbatim>\<open>Math.round((mutualCount / extendedNetwork.length) * 100 * 0.7)\<close> in double arithmetic,
  where the seed \<^verbatim>\<open>extendedNetwork\<close> is not empty; when the requester has none, the base is a
  random whole number from 60 to 95.
\<close>

theorem score_of_the_first_twenty:
  assumes "generateRecommendations isConnected L L' rnd me = Some (NetworkRecommendations recs)"
    and "r \<in> set recs"
    and "fetchAllFollowers L me = Some (Inr followers)"
    and "fetchAllFollowing L me = Some (Inr following)"
    and "rec_address r \<in> fst ` set (take 20
           (sortedCandidates
              (candidateProfiles L me (set (map toLowerCase following))
                 (extendedNetwork followers following))))"
  shows "0 < length (extendedNetwork followers following)
         \<and> score r =
           min 98 (max 50
             ((if 0 < length (mutualFollowers followers (set (map toLowerCase following)))
               then Math_round
                      (double_mul
                         (double_mul
                            (double_div (of_nat (rec_mutualFollowers r))
                               (of_nat (length (extendedNetwork followers following))))
                            100)
                         networkSizeWeight)
               else int (rnd (rec_address r) mod 36) + 60) + 6))"
  using assms(1-4) by (rule score_of_every_candidate)

theorem score_of_the_first_twenty_witness:
  "test_account 1 \<in> fst ` set (take 20
     (sortedCandidates
        (candidateProfiles network_ledger acct_A (set (map toLowerCase [acct_B]))
           (extendedNetwork [acct_B] [acct_B]))))
   \<and> min 98 (max 50
        (Math_round (double_mul (double_mul (double_div 3 3) 100) networkSizeWeight) + 6))
       = (76 :: int)"
proof -
  let ?r = "\<lparr> rec_address = test_account 1, score = 76, rec_reason = HighlyPopular 3,
               rec_mutualFollowers = 3, mutualFollowerSources = [acct_B] \<rparr>"
  have listed: "?r \<in> set (map (\<lambda>n. \<lparr> rec_address = test_account n, score = 76,
                   rec_reason = HighlyPopular 3, rec_mutualFollowers = 3,
                   mutualFollowerSources = [acct_B] \<rparr>) [1 ..< 6])"
    by simp
  have early: "rec_address ?r \<in> fst ` set (take 20
     (sortedCandidates
        (candidateProfiles network_ledger acct_A (set (map toLowerCase [acct_B]))
           (extendedNetwork [acct_B] [acct_B]))))"
    unfolding network_scenario_ranked
    by (auto simp: image_image intro!: image_eqI [where x = 1])
  have mutual: "0 < length (mutualFollowers [acct_B] (set (map toLowerCase [acct_B])))"
    by (simp add: mutualFollowers_def)
  have size: "length (extendedNetwork [acct_B] [acct_B]) = 3"
    by (simp add: extendedNetwork_def mutualFollowers_def)
  from score_of_the_first_twenty
         [OF network_scenario_run listed network_scenario_lists early]
  have "min 98 (max 50
        (Math_round (double_mul (double_mul (double_div 3 3) 100) networkSizeWeight) + 6))
       = (76 :: int)"
    unfolding size using mutual by simp
  with early show ?thesis by simp
qed

text \<open>
  The claim that the score is always computed from the overlap fails: a requester with one
  follower B and no account followed has no mutual follower, so the base of every candidate
  is the random draw. With every draw 0 the five candidates that B follows score
  \<open>60 + 6 = 66\<close>, whereas the overlap formula for \<^verbatim>\<open>mutualCount = 1\<close> and a seed of one
  account gives 76 with the bonus and 70 without.
\<close>

theorem score_counterexample:
  "generateRecommendations True one_way_ledger one_way_ledger (\<lambda>a. 0) acct_A =
     Some (NetworkRecommendations
       [\<lparr> rec_address = test_account 1, score = 66, rec_reason = HighlyPopular 1,
           rec_mutualFollowers = 1, mutualFollowerSources = [acct_B] \<rparr>,
        \<lparr> rec_address = test_account 2, score = 66, rec_reason = HighlyPopular 1,
           rec_mutualFollowers = 1, mutualFollowerSources = [acct_B] \<rparr>,
        \<lparr> rec_address = test_account 3, score = 66, rec_reason = HighlyPopular 1,
           rec_mutualFollowers = 1, mutualFollowerSources = [acct_B] \<rparr>,
        \<lparr> rec_address = test_account 4, score = 66, rec_reason = HighlyPopular 1,
           rec_mutualFollowers = 1, mutualFollowerSources = [acct_B] \<rparr>,
        \<lparr> rec_address = test_account 5, score = 66, rec_reason = HighlyPopular 1,
           rec_mutualFollowers = 1, mutualFollowerSources = [acct_B] \<rparr>])
   \<and> length (extendedNetwork [acct_B] []) = 1
   \<and> min 98 (max 50
        (Math_round (double_mul (double_mul (double_div 1 1) 100) networkSizeWeight) + 6))
       = (76 :: int)
   \<and> min 98 (max 50
        (Math_round (double_mul (double_mul (double_div 1 1) 100) networkSizeWeight)))
       = (70 :: int)"
  by code_simp

end
